theory Spec2Isabelle
  imports Complex_Main
begin

section \<open>Python values that cross the agent's interfaces\<close>

text \<open>
  The development embeds \<^verbatim>\<open>examples/08_agents/local_agent.py\<close>: the streaming
  aggregator and the dispatch of tool calls in \<^verbatim>\<open>stream_agent_turn\<close>, the loop
  \<^verbatim>\<open>agent_turn\<close>, and the expression evaluator behind \<^verbatim>\<open>calculate\<close>.
  Console output (\<^verbatim>\<open>console.print\<close>, \<^verbatim>\<open>print\<close>) and the flags that only steer
  it (\<^verbatim>\<open>show_thinking\<close>, \<^verbatim>\<open>reasoning_started\<close>, \<^verbatim>\<open>content_started\<close>) are left
  out: they touch neither the transcript nor a return value.

  Strings are lists of characters; a character stands for a Python code point below 256.
\<close>

subsection \<open>Exceptions\<close>

text \<open>
  An exception is its class and the text \<^verbatim>\<open>str(e)\<close>. Every class listed is a subclass
  of \<^verbatim>\<open>Exception\<close>; a tag stands for the class and its subclasses, the way an
  \<^verbatim>\<open>except\<close> clause matches them.
\<close>

datatype exc_class =
  SyntaxError | ZeroDivisionError | ValueError | TypeError | AttributeError
  | IndexError | OverflowError | JSONDecodeError | OtherException

datatype exn = Exn (exc_class: exc_class) (exc_str: string)

subsection \<open>JSON values\<close>

datatype json =
  JNull | JBool bool | JInt int | JFloat real | JStr string
  | JArr "json list" | JObj "(string \<times> json) list"

text \<open>\<^verbatim>\<open>type(v).__name__\<close> of what \<^verbatim>\<open>json.loads\<close> returns.\<close>

fun py_type_name :: "json \<Rightarrow> string" where
  "py_type_name JNull = ''NoneType''"
| "py_type_name (JBool _) = ''bool''"
| "py_type_name (JInt _) = ''int''"
| "py_type_name (JFloat _) = ''float''"
| "py_type_name (JStr _) = ''str''"
| "py_type_name (JArr _) = ''list''"
| "py_type_name (JObj _) = ''dict''"

section \<open>The streamed response\<close>

text \<open>
  A chunk of the stream carries \<^verbatim>\<open>choices\<close>; only \<^verbatim>\<open>choices[0].delta\<close> is read.
  An attribute that is missing (\<^verbatim>\<open>hasattr\<close> false) and one that is \<^verbatim>\<open>None\<close> are
  both \<open>None\<close> here: the source treats them alike.
\<close>

record function_delta =
  fn_name :: "string option"
  fn_arguments :: "string option"

record tool_call_delta =
  tc_index :: int
  tc_id :: "string option"
  tc_function :: function_delta

record delta =
  reasoning_content :: "string option"
  content :: "string option"
  tool_calls :: "tool_call_delta list option"

record choice =
  choice_delta :: "delta option"

record chunk =
  choices :: "choice list"

subsection \<open>The accumulated state\<close>

text \<open>
  \<^verbatim>\<open>tool_calls = {}\<close> is a Python dict keyed by index; a dict keeps its keys in the
  order of their first insertion, so it is an association list with distinct keys,
  a new key going to the end.
\<close>

record function_entry =
  name :: string
  arguments :: string

record tool_call_entry =
  entry_id :: "string option"
  entry_function :: function_entry

type_synonym tool_call_dict = "(int \<times> tool_call_entry) list"

record aggregation =
  agg_reasoning :: string
  agg_content :: string
  agg_tool_calls :: tool_call_dict

text \<open>\<^verbatim>\<open>x or ""\<close> for an optional string.\<close>

fun or_empty :: "string option \<Rightarrow> string" where
  "or_empty None = []"
| "or_empty (Some s) = s"

text \<open>Truth value of an optional string: \<^verbatim>\<open>None\<close> and \<^verbatim>\<open>""\<close> are false.\<close>

fun truthy :: "string option \<Rightarrow> bool" where
  "truthy None = False"
| "truthy (Some s) = (s \<noteq> [])"

text \<open>\<^verbatim>\<open>tool_calls[idx]["function"]["arguments"] += a\<close>\<close>

fun append_arguments :: "int \<Rightarrow> string \<Rightarrow> tool_call_dict \<Rightarrow> tool_call_dict" where
  "append_arguments idx a [] = []"
| "append_arguments idx a ((k, e) # d) =
     (if k = idx
      then (k, e\<lparr>entry_function :=
                  (entry_function e)\<lparr>arguments := arguments (entry_function e) @ a\<rparr>\<rparr>) # d
      else (k, e) # append_arguments idx a d)"

text \<open>The body of \<^verbatim>\<open>for tc in delta.tool_calls\<close> (lines 349 to 361).\<close>

definition accumulate_tool_call :: "tool_call_dict \<Rightarrow> tool_call_delta \<Rightarrow> tool_call_dict" where
  "accumulate_tool_call d tc =
     (let idx = tc_index tc in
      if idx \<notin> fst ` set d
      then d @ [(idx, \<lparr>entry_id = tc_id tc,
                       entry_function = \<lparr>name = or_empty (fn_name (tc_function tc)),
                                         arguments = or_empty (fn_arguments (tc_function tc))\<rparr>\<rparr>)]
      else if truthy (fn_arguments (tc_function tc))
           then append_arguments idx (the (fn_arguments (tc_function tc))) d
           else d)"

text \<open>What one delta does to the three accumulators (lines 329 to 361).\<close>

definition process_delta :: "aggregation \<Rightarrow> delta \<Rightarrow> aggregation" where
  "process_delta st d =
     (let st1 = (if truthy (reasoning_content d)
                 then st\<lparr>agg_reasoning := agg_reasoning st @ the (reasoning_content d)\<rparr>
                 else st);
          st2 = (if truthy (content d)
                 then st1\<lparr>agg_content := agg_content st1 @ the (content d)\<rparr>
                 else st1)
      in case tool_calls d of
           None \<Rightarrow> st2
         | Some tcs \<Rightarrow> st2\<lparr>agg_tool_calls := foldl accumulate_tool_call (agg_tool_calls st2) tcs\<rparr>)"

text \<open>
  The guard at the head of the loop body: a chunk without choices, or whose first choice
  has no delta, is skipped (lines 324 to 327).
\<close>

definition process_chunk :: "aggregation \<Rightarrow> chunk \<Rightarrow> aggregation" where
  "process_chunk st c =
     (case choices c of
        [] \<Rightarrow> st
      | ch # _ \<Rightarrow> (case choice_delta ch of None \<Rightarrow> st | Some d \<Rightarrow> process_delta st d))"

definition initial_aggregation :: aggregation where
  "initial_aggregation = \<lparr>agg_reasoning = [], agg_content = [], agg_tool_calls = []\<rparr>"

text \<open>\<^verbatim>\<open>for chunk in response\<close>\<close>

definition aggregate :: "chunk list \<Rightarrow> aggregation" where
  "aggregate response = foldl process_chunk initial_aggregation response"

subsection \<open>What the stream carried, read off the fragments\<close>

text \<open>
  The deltas the loop reads, in arrival order, and the slices they carry. These
  definitions follow the wording of the specification, not the loop: they are what the
  aggregator is compared with.
\<close>

definition deltas_of :: "chunk list \<Rightarrow> delta list" where
  "deltas_of response =
     concat (map (\<lambda>c. case choices c of
                         [] \<Rightarrow> []
                       | ch # _ \<Rightarrow> (case choice_delta ch of None \<Rightarrow> [] | Some d \<Rightarrow> [d])) response)"

definition reasoning_slices :: "chunk list \<Rightarrow> string list" where
  "reasoning_slices response = map (\<lambda>d. or_empty (reasoning_content d)) (deltas_of response)"

definition answer_slices :: "chunk list \<Rightarrow> string list" where
  "answer_slices response = map (\<lambda>d. or_empty (content d)) (deltas_of response)"

definition tool_call_deltas :: "chunk list \<Rightarrow> tool_call_delta list" where
  "tool_call_deltas response =
     concat (map (\<lambda>d. case tool_calls d of None \<Rightarrow> [] | Some tcs \<Rightarrow> tcs) (deltas_of response))"

definition deltas_bearing :: "int \<Rightarrow> chunk list \<Rightarrow> tool_call_delta list" where
  "deltas_bearing idx response = filter (\<lambda>tc. tc_index tc = idx) (tool_call_deltas response)"

text \<open>
  The invocation the specification describes for one index: nothing when no delta bears
  the index; otherwise identifier and name from the first delta, and the argument texts
  of all of them concatenated.
\<close>

definition specified_invocation :: "tool_call_delta list \<Rightarrow> tool_call_entry option" where
  "specified_invocation tcs =
     (case tcs of
        [] \<Rightarrow> None
      | first # _ \<Rightarrow>
          Some \<lparr>entry_id = tc_id first,
                entry_function =
                  \<lparr>name = or_empty (fn_name (tc_function first)),
                   arguments = concat (map (\<lambda>tc. or_empty (fn_arguments (tc_function tc))) tcs)\<rparr>\<rparr>)"

section \<open>The transcript\<close>

text \<open>
  A message is a Python dict. The key \<^verbatim>\<open>content\<close> can be missing, present with the value
  \<^verbatim>\<open>None\<close>, or present with a string; the other optional keys are missing or present.
\<close>

datatype content_field = Absent | PyNone | Text string

record tool_call =
  call_id :: "string option"
  call_type :: string
  call_function :: function_entry

record message =
  role :: string
  msg_content :: content_field
  msg_reasoning_content :: "string option"
  msg_tool_calls :: "tool_call list option"
  msg_tool_call_id :: "string option option"

text \<open>
  Lines 370 to 385. \<^verbatim>\<open>tool_calls.values()\<close> lists the entries in the order of the dict,
  which is the order in which the indices were first seen.
\<close>

definition assistant_message :: "aggregation \<Rightarrow> message" where
  "assistant_message agg =
     (let m0 = \<lparr>role = ''assistant'', msg_content = Absent, msg_reasoning_content = None,
                msg_tool_calls = None, msg_tool_call_id = None\<rparr>;
          m1 = (if agg_content agg \<noteq> [] then m0\<lparr>msg_content := Text (agg_content agg)\<rparr> else m0);
          m2 = (if agg_reasoning agg \<noteq> []
                then m1\<lparr>msg_reasoning_content := Some (agg_reasoning agg)\<rparr> else m1)
      in if agg_tool_calls agg \<noteq> []
         then (let m3 = m2\<lparr>msg_tool_calls :=
                            Some (map (\<lambda>tc. \<lparr>call_id = entry_id tc, call_type = ''function'',
                                            call_function = entry_function tc\<rparr>)
                                      (map snd (agg_tool_calls agg)))\<rparr>
               in if msg_content m3 = Absent then m3\<lparr>msg_content := PyNone\<rparr> else m3)
         else m2)"

text \<open>\<^verbatim>\<open>{"role": "tool", "tool_call_id": tc["id"], "content": ...}\<close>\<close>

definition tool_message :: "string option \<Rightarrow> string \<Rightarrow> message" where
  "tool_message tcid text =
     \<lparr>role = ''tool'', msg_content = Text text, msg_reasoning_content = None,
      msg_tool_calls = None, msg_tool_call_id = Some tcid\<rparr>"

text \<open>\<^verbatim>\<open>m.get("content", "")\<close>; the result \<open>None\<close> is Python's \<^verbatim>\<open>None\<close>.\<close>

fun get_content :: "message \<Rightarrow> string option" where
  "get_content m = (case msg_content m of Absent \<Rightarrow> Some [] | PyNone \<Rightarrow> None | Text t \<Rightarrow> Some t)"

section \<open>The tool registry\<close>

text \<open>
  \<^verbatim>\<open>FUNCTION_MAP[func_name](**func_args)\<close> first binds the keyword arguments to the
  parameters of the function and raises \<^verbatim>\<open>TypeError\<close> when a key names no parameter or a
  parameter without default gets no value; only then does the body run. A registered
  function is represented by its parameter list (name and default); the bodies work on
  the file system, the shell and the clock, and are a parameter of the model.
\<close>

type_synonym parameters = "(string \<times> json option) list"

definition FUNCTION_MAP :: "string \<Rightarrow> parameters option" where
  "FUNCTION_MAP =
     map_of [(''read_file'', [(''path'', None)]),
             (''write_file'', [(''path'', None), (''content'', None)]),
             (''list_directory'', [(''path'', Some (JStr ''.''))]),
             (''run_command'', [(''command'', None)]),
             (''calculate'', [(''expression'', None)]),
             (''get_datetime'', [])]"

definition quoted :: "string \<Rightarrow> string" where
  "quoted s = CHR 0x27 # s @ [CHR 0x27]"

text \<open>The text of the \<^verbatim>\<open>TypeError\<close> for missing arguments, as CPython 3 words it.\<close>

fun missing_text :: "string list \<Rightarrow> string" where
  "missing_text [p] = ''1 required positional argument: '' @ quoted p"
| "missing_text [p, q] = ''2 required positional arguments: '' @ quoted p @ '' and '' @ quoted q"
| "missing_text ps = ''required positional arguments: '' @ concat (map quoted ps)"

definition bind_arguments ::
    "string \<Rightarrow> parameters \<Rightarrow> (string \<times> json) list \<Rightarrow> exn + (string \<times> json) list" where
  "bind_arguments fname params kwargs =
     (let unexpected = filter (\<lambda>k. k \<notin> set (map fst params)) (map fst kwargs);
          missing = filter (\<lambda>p. p \<notin> set (map fst kwargs))
                      (map fst (filter (\<lambda>(p, dflt). dflt = None) params))
      in if unexpected \<noteq> []
         then Inl (Exn TypeError (fname @ ''() got an unexpected keyword argument ''
                                   @ quoted (hd unexpected)))
         else if missing \<noteq> []
         then Inl (Exn TypeError (fname @ ''() missing '' @ missing_text missing))
         else Inr (map (\<lambda>(p, dflt). (p, case map_of kwargs p of Some v \<Rightarrow> v | None \<Rightarrow> the dflt))
                       params))"

section \<open>One exchange: \<^verbatim>\<open>stream_agent_turn\<close>\<close>

text \<open>
  What lies outside the file: the remote service behind \<^verbatim>\<open>client.create_chat\<close>, the
  \<^verbatim>\<open>json\<close> module, and the effects of the tool bodies. The world \<open>'w\<close> is everything they
  can read and change. \<^verbatim>\<open>json.dumps\<close> raises on a value it cannot write (the result of
  \<^verbatim>\<open>calculate\<close> can hold a complex number, or an integer too long to print).
\<close>

record 'w runtime =
  create_chat :: "message list \<Rightarrow> 'w \<Rightarrow> (exn + chunk list) \<times> 'w"
  json_loads :: "string \<Rightarrow> exn + json"
  json_dumps :: "json \<Rightarrow> exn + string"
  tool_body :: "string \<Rightarrow> (string \<times> json) list \<Rightarrow> 'w \<Rightarrow> (exn + (string \<times> json) list) \<times> 'w"

text \<open>
  The calls that leave the turn are recorded in the order in which they are made: a
  request to the remote service with the transcript sent, and the call of a registered
  function with the keyword arguments passed (recorded when the call is made, before
  the arguments are bound).
\<close>

datatype event = ChatRequest "message list" | ToolCall string "(string \<times> json) list"

record 'w state =
  messages :: "message list"
  world :: 'w
  trace :: "event list"

text \<open>\<^verbatim>\<open>str.isspace\<close> on code points below 256, and \<^verbatim>\<open>str.strip()\<close>.\<close>

definition py_isspace :: "char \<Rightarrow> bool" where
  "py_isspace c = (of_char c \<in> {9, 10, 11, 12, 13, 28, 29, 30, 31, 32, 133, 160 :: nat})"

definition strip :: "string \<Rightarrow> string" where
  "strip s = rev (dropWhile py_isspace (rev (dropWhile py_isspace s)))"

definition append_message :: "message \<Rightarrow> 'w state \<Rightarrow> 'w state" where
  "append_message m s = s\<lparr>messages := messages s @ [m]\<rparr>"

text \<open>
  \<^verbatim>\<open>json.loads(raw_args) if raw_args.strip() else {}\<close>
\<close>

definition parse_arguments :: "'w runtime \<Rightarrow> string \<Rightarrow> exn + json" where
  "parse_arguments rt raw_args =
     (if strip raw_args \<noteq> [] then json_loads rt raw_args else Inr (JObj []))"

text \<open>
  \<^verbatim>\<open>messages.append({"role": "tool", "tool_call_id": tc["id"], "content": json.dumps(...)})\<close>:
  the payload is written first, and an exception of \<^verbatim>\<open>json.dumps\<close> leaves the transcript
  as it is.
\<close>

definition reply :: "'w runtime \<Rightarrow> tool_call_entry \<Rightarrow> json \<Rightarrow> 'w state \<Rightarrow> exn + 'w state" where
  "reply rt tc payload s =
     (case json_dumps rt payload of
        Inl e \<Rightarrow> Inl e
      | Inr written \<Rightarrow> Inr (append_message (tool_message (entry_id tc) written) s))"

text \<open>
  The loop \<^verbatim>\<open>for idx in sorted(tool_calls.keys())\<close> over the entries in that order (lines
  391 to 434). The result \<open>Some e\<close> is an exception that leaves the loop, \<open>None\<close> its
  normal end. \<^verbatim>\<open>except json.JSONDecodeError\<close> catches that class only.
  \<^verbatim>\<open>func_args.items()\<close> (line 410) raises \<^verbatim>\<open>AttributeError\<close> on a value that is not a dict.
  The call of the registered function (line 417) and \<^verbatim>\<open>json.dumps(result)\<close> (line 421)
  stand in no \<^verbatim>\<open>try\<close>.
\<close>

fun dispatch :: "'w runtime \<Rightarrow> tool_call_entry list \<Rightarrow> 'w state \<Rightarrow> exn option \<times> 'w state" where
  "dispatch rt [] s = (None, s)"
| "dispatch rt (tc # rest) s =
     (let func_name = name (entry_function tc);
          raw_args = arguments (entry_function tc)
      in case parse_arguments rt raw_args of
           Inl e \<Rightarrow>
             if exc_class e = JSONDecodeError
             then (case reply rt tc
                          (JObj [(''error'', JStr (''Invalid arguments JSON: '' @ exc_str e))]) s of
                     Inl e' \<Rightarrow> (Some e', s)
                   | Inr s' \<Rightarrow> dispatch rt rest s')
             else (Some e, s)
         | Inr (JObj func_args) \<Rightarrow>
             (case FUNCTION_MAP func_name of
                Some params \<Rightarrow>
                  (let s1 = s\<lparr>trace := trace s @ [ToolCall func_name func_args]\<rparr> in
                   case bind_arguments func_name params func_args of
                     Inl e \<Rightarrow> (Some e, s1)
                   | Inr bound \<Rightarrow>
                       (case tool_body rt func_name bound (world s1) of
                          (Inl e, w) \<Rightarrow> (Some e, s1\<lparr>world := w\<rparr>)
                        | (Inr result, w) \<Rightarrow>
                            (case reply rt tc (JObj result) (s1\<lparr>world := w\<rparr>) of
                               Inl e \<Rightarrow> (Some e, s1\<lparr>world := w\<rparr>)
                             | Inr s' \<Rightarrow> dispatch rt rest s')))
              | None \<Rightarrow>
                  (case reply rt tc
                          (JObj [(''error'', JStr (''Unknown function: '' @ func_name))]) s of
                     Inl e \<Rightarrow> (Some e, s)
                   | Inr s' \<Rightarrow> dispatch rt rest s'))
         | Inr v \<Rightarrow>
             (Some (Exn AttributeError
                      (quoted (py_type_name v) @ '' object has no attribute '' @ quoted ''items'')),
              s))"

text \<open>The entries in the order of \<^verbatim>\<open>sorted(tool_calls.keys())\<close>.\<close>

definition in_index_order :: "tool_call_dict \<Rightarrow> tool_call_entry list" where
  "in_index_order d = map snd (sort_key fst d)"

text \<open>
  The result is the value returned (\<open>Inr None\<close> is Python's \<^verbatim>\<open>None\<close>, the signal that
  tool calls were made) or the exception that leaves the function, and the state left
  behind: the transcript is changed in place, so what was appended before an exception
  stays.
\<close>

definition stream_agent_turn :: "'w runtime \<Rightarrow> 'w state \<Rightarrow> (exn + string option) \<times> 'w state" where
  "stream_agent_turn rt s =
     (let s0 = s\<lparr>trace := trace s @ [ChatRequest (messages s)]\<rparr> in
      case create_chat rt (messages s0) (world s0) of
        (Inl e, w) \<Rightarrow> (Inl e, s0\<lparr>world := w\<rparr>)
      | (Inr response, w) \<Rightarrow>
          (let agg = aggregate response;
               s1 = append_message (assistant_message agg) (s0\<lparr>world := w\<rparr>)
           in if agg_tool_calls agg \<noteq> []
              then (case dispatch rt (in_index_order (agg_tool_calls agg)) s1 of
                      (Some e, s2) \<Rightarrow> (Inl e, s2)
                    | (None, s2) \<Rightarrow> (Inr None, s2))
              else (Inr (Some (agg_content agg)), s1)))"

section \<open>The loop: \<^verbatim>\<open>agent_turn\<close>\<close>

text \<open>
  \<^verbatim>\<open>for i in range(max_iterations)\<close> with the rounds still to run as the counter. The
  result \<open>Inr None\<close> says that the loop ran out without a \<^verbatim>\<open>return\<close>.
\<close>

fun agent_loop :: "'w runtime \<Rightarrow> nat \<Rightarrow> 'w state \<Rightarrow> (exn + string option) \<times> 'w state" where
  "agent_loop rt 0 s = (Inr None, s)"
| "agent_loop rt (Suc n) s =
     (case stream_agent_turn rt s of
        (Inl e, s') \<Rightarrow> (Inl e, s')
      | (Inr (Some result), s') \<Rightarrow> (Inr (Some result), s')
      | (Inr None, s') \<Rightarrow> agent_loop rt n s')"

text \<open>
  \<^verbatim>\<open>range(n)\<close> is empty for \<open>n \<le> 0\<close>. \<^verbatim>\<open>messages[-1]\<close> raises \<^verbatim>\<open>IndexError\<close> on an empty
  list. In the result, \<open>Inr None\<close> is Python's \<^verbatim>\<open>None\<close>.
\<close>

definition agent_turn :: "'w runtime \<Rightarrow> int \<Rightarrow> 'w state \<Rightarrow> (exn + string option) \<times> 'w state" where
  "agent_turn rt max_iterations s =
     (case agent_loop rt (nat max_iterations) s of
        (Inr None, s') \<Rightarrow>
          (if messages s' = [] then (Inl (Exn IndexError ''list index out of range''), s')
           else (Inr (get_content (last (messages s'))), s'))
      | (r, s') \<Rightarrow> (r, s'))"

text \<open>The call without the keyword: \<^verbatim>\<open>max_iterations: int = 10\<close>.\<close>

definition agent_turn_default :: "'w runtime \<Rightarrow> 'w state \<Rightarrow> (exn + string option) \<times> 'w state" where
  "agent_turn_default rt s = agent_turn rt 10 s"

text \<open>The requests to the remote service among the events: one per round.\<close>

fun is_chat_request :: "event \<Rightarrow> bool" where
  "is_chat_request (ChatRequest _) = True"
| "is_chat_request (ToolCall _ _) = False"

definition rounds :: "event list \<Rightarrow> nat" where
  "rounds evs = length (filter is_chat_request evs)"

section \<open>The expression evaluator\<close>

text \<open>
  \<^verbatim>\<open>ast.parse\<close> and the functions applied to the operands (the \<^verbatim>\<open>operator\<close> and
  \<^verbatim>\<open>math\<close> modules, \<^verbatim>\<open>pow\<close>, \<^verbatim>\<open>abs\<close>, \<^verbatim>\<open>round\<close>) belong to Python, work on
  integers of any size and on floating-point numbers, and are a parameter of the model;
  \<open>'v\<close> is the type of the numbers. What is embedded is the walk over the tree: which
  nodes it accepts, in which order it evaluates, what it passes to the functions, and
  what it raises itself. An application returns a value or raises; how long it takes is
  not modelled. Neither is the limit on the depth of recursion: on a tree too deep
  \<^verbatim>\<open>safe_eval_node\<close> raises \<^verbatim>\<open>RecursionError\<close>, which the last \<^verbatim>\<open>except\<close> clause of
  \<^verbatim>\<open>calculate\<close> turns into an error payload like any other exception.
\<close>

subsection \<open>The syntax tree\<close>

text \<open>
  The classes of \<^verbatim>\<open>ast\<close> for the operator of a \<^verbatim>\<open>BinOp\<close> and of a \<^verbatim>\<open>UnaryOp\<close>;
  \<open>op_type\<close> is \<^verbatim>\<open>type(node.op)\<close>, the key of \<^verbatim>\<open>SAFE_OPERATORS\<close>.
\<close>

datatype operator =
  Op_Add | Op_Sub | Op_Mult | Op_MatMult | Op_Div | Op_Mod | Op_Pow | Op_LShift | Op_RShift
  | Op_BitOr | Op_BitXor | Op_BitAnd | Op_FloorDiv

datatype unaryop = Op_Invert | Op_Not | Op_UAdd | Op_USub





text \<open>
  The value of an \<^verbatim>\<open>ast.Constant\<close> is a number (an \<^verbatim>\<open>int\<close> or a \<^verbatim>\<open>float\<close>; \<^verbatim>\<open>True\<close>
  and \<^verbatim>\<open>False\<close> are among them, \<^verbatim>\<open>bool\<close> being a subclass of \<^verbatim>\<open>int\<close>) or something
  else, of which only the type's name matters. A call has its positional arguments and
  its keywords, each keyword the pair of \<^verbatim>\<open>arg\<close> (absent for \<^verbatim>\<open>**mapping\<close>) and
  \<^verbatim>\<open>value\<close>. \<open>OtherNode\<close> is any node of another class, with the name of its class.
\<close>

datatype 'v constant_value = Number 'v | NonNumber string

datatype 'v node =
  Constant "'v constant_value"
  | Name string
  | BinOp "'v node" operator "'v node"
  | UnaryOp unaryop "'v node"
  | Call "'v node" "'v node list" "(string option \<times> 'v node) list"
  | Expression "'v node"
  | OtherNode string


subsection \<open>The tables and the walk\<close>

text \<open>The Python callables the two tables hold.\<close>

datatype pyfunc =
  operator_add | operator_sub | operator_mul | operator_truediv | operator_pow
  | operator_neg | operator_pos | operator_mod
  | math_sin | math_cos | math_tan | math_asin | math_acos | math_atan | math_sqrt
  | math_log | math_log10 | math_exp | builtin_pow | builtin_abs | math_floor | math_ceil
  | builtin_round



text \<open>
  \<open>py_call f args keywords\<close> is the Python call \<^verbatim>\<open>f(*args, **keywords)\<close>: the value it
  returns or the exception it raises.
\<close>

record 'v python =
  ast_parse :: "string \<Rightarrow> exn + 'v node"
  py_call :: "pyfunc \<Rightarrow> 'v list \<Rightarrow> (string option \<times> 'v) list \<Rightarrow> exn + 'v"
  math_pi :: 'v
  math_e :: 'v



text \<open>
  The payload of \<^verbatim>\<open>calculate\<close>: \<^verbatim>\<open>{"expression": ..., "result": ...}\<close> or
  \<^verbatim>\<open>{"error": ...}\<close>.
\<close>

datatype 'v payload = Result string 'v | Error string



subsection \<open>What the specification says of an expression\<close>







text \<open>
  Why an expression has no value: the kinds of failure the specification names, and
  the exception of an operator or function that was applied.
\<close>

datatype failure =
  UnknownVariable string
  | UnsupportedOperator string
  | UnsupportedFunction string
  | UnsupportedConstant string
  | UnsupportedNode string
  | Raised exn

definition applied ::
  "'v python \<Rightarrow> pyfunc \<Rightarrow> 'v list \<Rightarrow> (string option \<times> 'v) list \<Rightarrow> failure + 'v" where
  "applied py f args keywords =
     (case py_call py f args keywords of Inl e \<Rightarrow> Inl (Raised e) | Inr v \<Rightarrow> Inr v)"






section \<open>Rounds and stand-ins used to state and exercise the properties\<close>

text \<open>
  \<open>extends s s'\<close>: the state \<open>s'\<close> has the transcript and the record of calls of \<open>s\<close>
  with something added at the end, and no request to the remote service among the calls
  added.
\<close>

definition extends :: "'w state \<Rightarrow> 'w state \<Rightarrow> bool" where
  "extends s s' \<longleftrightarrow>
     (\<exists>ms evs. messages s' = messages s @ ms \<and> trace s' = trace s @ evs \<and> rounds evs = 0)"

text \<open>The state after \<open>k\<close> calls of \<^verbatim>\<open>stream_agent_turn\<close> in a row.\<close>

fun after_rounds :: "'w runtime \<Rightarrow> nat \<Rightarrow> 'w state \<Rightarrow> 'w state" where
  "after_rounds rt 0 s = s"
| "after_rounds rt (Suc k) s = after_rounds rt k (snd (stream_agent_turn rt s))"

text \<open>
  Stand-ins for the remote service and the libraries, for running the definitions on
  concrete input. The service answers with a response chosen from the transcript it is
  sent. The stand-in for \<^verbatim>\<open>json.loads\<close> knows the texts \<^verbatim>\<open>{}\<close> and \<^verbatim>\<open>[]\<close> and rejects
  every other text; the one for \<^verbatim>\<open>json.dumps\<close> writes an object whose values are
  strings. Every tool body returns \<^verbatim>\<open>{"status": "ok"}\<close>. The world has nothing in it.
\<close>

definition stub_loads :: "string \<Rightarrow> exn + json" where
  "stub_loads text =
     (if text = ''{}'' then Inr (JObj [])
      else if text = ''[]'' then Inr (JArr [])
      else Inl (Exn JSONDecodeError ''Expecting value: line 1 column 1 (char 0)''))"

definition double_quoted :: "string \<Rightarrow> string" where
  "double_quoted s = CHR 0x22 # s @ [CHR 0x22]"

fun stub_dumps_items :: "(string \<times> json) list \<Rightarrow> string" where
  "stub_dumps_items [] = []"
| "stub_dumps_items ((k, v) # items) =
     double_quoted k @ '': '' @ (case v of JStr t \<Rightarrow> double_quoted t | _ \<Rightarrow> ''null'')
     @ (if items = [] then [] else '', '' @ stub_dumps_items items)"

definition stub_dumps :: "json \<Rightarrow> string" where
  "stub_dumps v = (case v of JObj items \<Rightarrow> ''{'' @ stub_dumps_items items @ ''}'' | _ \<Rightarrow> ''null'')"

definition stub_runtime :: "(message list \<Rightarrow> chunk list) \<Rightarrow> unit runtime" where
  "stub_runtime respond =
     \<lparr>create_chat = (\<lambda>msgs w. (Inr (respond msgs), w)),
      json_loads = stub_loads,
      json_dumps = (\<lambda>v. Inr (stub_dumps v)),
      tool_body = (\<lambda>fname bound w. (Inr [(''status'', JStr ''ok'')], w))\<rparr>"

definition delta_chunk :: "delta \<Rightarrow> chunk" where
  "delta_chunk d = \<lparr>choices = [\<lparr>choice_delta = Some d\<rparr>]\<rparr>"

definition answer_chunk :: "string \<Rightarrow> chunk" where
  "answer_chunk text =
     delta_chunk \<lparr>reasoning_content = None, content = Some text, tool_calls = None\<rparr>"

text \<open>A chunk with one tool-call delta: index, identifier, name, argument text.\<close>

definition tool_chunk :: "int \<Rightarrow> string option \<Rightarrow> string option \<Rightarrow> string option \<Rightarrow> chunk" where
  "tool_chunk idx ident fname args =
     delta_chunk \<lparr>reasoning_content = None, content = None,
                  tool_calls = Some [\<lparr>tc_index = idx, tc_id = ident,
                                      tc_function = \<lparr>fn_name = fname, fn_arguments = args\<rparr>\<rparr>]\<rparr>"

definition system_message :: message where
  "system_message =
     \<lparr>role = ''system'', msg_content = Text ''You are a local AI assistant.'',
      msg_reasoning_content = None, msg_tool_calls = None, msg_tool_call_id = None\<rparr>"

definition user_message :: "string \<Rightarrow> message" where
  "user_message text =
     \<lparr>role = ''user'', msg_content = Text text,
      msg_reasoning_content = None, msg_tool_calls = None, msg_tool_call_id = None\<rparr>"

definition start_state :: "unit state" where
  "start_state = \<lparr>messages = [system_message, user_message ''hello''], world = (), trace = []\<rparr>"

text \<open>Deltas whose indices first arrive in the order 2, 0, 1.\<close>

definition out_of_order_response :: "chunk list" where
  "out_of_order_response =
     [tool_chunk 2 (Some ''call_c'') (Some ''get_datetime'') (Some ''{}''),
      tool_chunk 0 (Some ''call_a'') (Some ''get_datetime'') (Some ''{}''),
      tool_chunk 1 (Some ''call_b'') (Some ''get_datetime'') (Some ''{}'')]"

text \<open>\<^verbatim>\<open>read_file\<close> requested with no argument text at all.\<close>

definition read_file_without_path :: "chunk list" where
  "read_file_without_path = [tool_chunk 0 (Some ''call_1'') (Some ''read_file'') None]"

text \<open>
  Two invocations: \<^verbatim>\<open>write_file\<close> with an empty object at index 0, \<^verbatim>\<open>get_datetime\<close>
  at index 1.
\<close>

definition write_then_clock :: "chunk list" where
  "write_then_clock =
     [tool_chunk 0 (Some ''call_1'') (Some ''write_file'') (Some ''{}''),
      tool_chunk 1 (Some ''call_2'') (Some ''get_datetime'') (Some ''{}'')]"

text \<open>Argument text that is not JSON, then a well-formed invocation.\<close>

definition broken_then_clock :: "chunk list" where
  "broken_then_clock =
     [tool_chunk 0 (Some ''call_1'') (Some ''run_command'') (Some ''ls -la''),
      tool_chunk 1 (Some ''call_2'') (Some ''get_datetime'') (Some ''{}'')]"

text \<open>A service that asks for the clock in every round: no round gives an answer.\<close>

definition always_tools :: "message list \<Rightarrow> chunk list" where
  "always_tools msgs = [tool_chunk 0 (Some ''call_1'') (Some ''get_datetime'') (Some ''{}'')]"

text \<open>A service that asks for the clock once and answers when it sees the result.\<close>

definition tools_then_answer :: "message list \<Rightarrow> chunk list" where
  "tools_then_answer msgs =
     (if length msgs < 3
      then [tool_chunk 0 (Some ''call_1'') (Some ''get_datetime'') (Some ''{}'')]
      else [answer_chunk ''It is '', answer_chunk ''noon.''])"

text \<open>
  \<^verbatim>\<open>run_command\<close> with the argument text \<^verbatim>\<open>[]\<close>, which is JSON but no object, then
  \<^verbatim>\<open>get_datetime\<close>.
\<close>

definition list_then_clock :: "chunk list" where
  "list_then_clock =
     [tool_chunk 0 (Some ''call_1'') (Some ''run_command'') (Some ''[]''),
      tool_chunk 1 (Some ''call_2'') (Some ''get_datetime'') (Some ''{}'')]"

text \<open>
  A runtime whose world is the list of the tool bodies that have run, each with the
  arguments bound to its parameters; a body returns an object that names the tool.
\<close>

definition recording_runtime :: "(string \<times> (string \<times> json) list) list runtime" where
  "recording_runtime =
     \<lparr>create_chat = (\<lambda>msgs w. (Inr [], w)),
      json_loads = stub_loads,
      json_dumps = (\<lambda>v. Inr (stub_dumps v)),
      tool_body = (\<lambda>fname bound w. (Inr [(''ran'', JStr fname)], w @ [(fname, bound)]))\<rparr>"

definition nothing_yet :: "(string \<times> (string \<times> json) list) list state" where
  "nothing_yet = \<lparr>messages = [], world = [], trace = []\<rparr>"

text \<open>\<^verbatim>\<open>list_directory\<close> with a blank and a tab for arguments.\<close>

definition directory_call :: tool_call_entry where
  "directory_call =
     \<lparr>entry_id = Some ''call_7'',
      entry_function = \<lparr>name = ''list_directory'', arguments = [CHR '' '', CHR 0x09]\<rparr>\<rparr>"




section \<open>The aggregator\<close>

lemma reasoning_process_delta:
  "agg_reasoning (process_delta st d) = agg_reasoning st @ or_empty (reasoning_content d)"
  by (cases "reasoning_content d"; cases "content d"; cases "tool_calls d")
     (simp_all add: process_delta_def Let_def)

lemma content_process_delta:
  "agg_content (process_delta st d) = agg_content st @ or_empty (content d)"
  by (cases "reasoning_content d"; cases "content d"; cases "tool_calls d")
     (simp_all add: process_delta_def Let_def)

lemma tool_calls_process_delta:
  "agg_tool_calls (process_delta st d) =
     foldl accumulate_tool_call (agg_tool_calls st)
       (case tool_calls d of None \<Rightarrow> [] | Some tcs \<Rightarrow> tcs)"
  by (cases "reasoning_content d"; cases "content d"; cases "tool_calls d")
     (simp_all add: process_delta_def Let_def)

lemma foldl_process_chunk:
  "agg_reasoning (foldl process_chunk st cs) = agg_reasoning st @ concat (reasoning_slices cs)
   \<and> agg_content (foldl process_chunk st cs) = agg_content st @ concat (answer_slices cs)
   \<and> agg_tool_calls (foldl process_chunk st cs)
       = foldl accumulate_tool_call (agg_tool_calls st) (tool_call_deltas cs)"
proof (induction cs arbitrary: st)
  case Nil
  show ?case by (simp add: reasoning_slices_def answer_slices_def tool_call_deltas_def deltas_of_def)
next
  case (Cons c cs)
  show ?case
    using Cons.IH [of "process_chunk st c"]
    by (simp add: reasoning_slices_def answer_slices_def tool_call_deltas_def deltas_of_def
        process_chunk_def reasoning_process_delta content_process_delta tool_calls_process_delta
        split: list.splits option.splits)
qed

lemma map_of_append_arguments:
  "map_of (append_arguments idx a d) k =
     (if k = idx
      then map_option (\<lambda>e. e\<lparr>entry_function :=
              (entry_function e)\<lparr>arguments := arguments (entry_function e) @ a\<rparr>\<rparr>) (map_of d k)
      else map_of d k)"
  by (induction d) auto

lemma keys_append_arguments: "map fst (append_arguments idx a d) = map fst d"
  by (induction d) auto

lemma map_of_snoc:
  "map_of (d @ [(i, e)]) k =
     (case map_of d k of None \<Rightarrow> (if k = i then Some e else None) | Some x \<Rightarrow> Some x)"
  by (induction d) auto

lemma map_of_accumulate_tool_call:
  "map_of (accumulate_tool_call d tc) k =
     (if k = tc_index tc
      then (case map_of d k of
              None \<Rightarrow> specified_invocation [tc]
            | Some e \<Rightarrow> Some (e\<lparr>entry_function := (entry_function e)
                 \<lparr>arguments := arguments (entry_function e) @ or_empty (fn_arguments (tc_function tc))\<rparr>\<rparr>))
      else map_of d k)"
proof (cases "tc_index tc \<in> fst ` set d")
  case True
  then obtain e where e: "map_of d (tc_index tc) = Some e"
    by (metis map_of_eq_None_iff not_Some_eq)
  show ?thesis
    using True e
    by (cases "fn_arguments (tc_function tc)")
       (simp_all add: accumulate_tool_call_def Let_def map_of_append_arguments)
next
  case False
  then have "map_of d (tc_index tc) = None"
    by (simp add: map_of_eq_None_iff)
  then show ?thesis
    using False
    by (simp add: accumulate_tool_call_def Let_def map_of_snoc specified_invocation_def
        del: map_of_append split: option.splits)
qed

lemma keys_accumulate_tool_call:
  "distinct (map fst d) \<Longrightarrow> distinct (map fst (accumulate_tool_call d tc))"
  by (simp add: accumulate_tool_call_def Let_def keys_append_arguments)

lemma distinct_foldl_accumulate:
  "distinct (map fst d) \<Longrightarrow> distinct (map fst (foldl accumulate_tool_call d tcs))"
  by (induction tcs arbitrary: d) (simp_all add: keys_accumulate_tool_call)

lemma map_of_foldl_accumulate:
  "map_of (foldl accumulate_tool_call d tcs) idx =
     (case map_of d idx of
        None \<Rightarrow> specified_invocation (filter (\<lambda>tc. tc_index tc = idx) tcs)
      | Some e \<Rightarrow> Some (e\<lparr>entry_function := (entry_function e)
           \<lparr>arguments := arguments (entry_function e)
              @ concat (map (\<lambda>tc. or_empty (fn_arguments (tc_function tc)))
                            (filter (\<lambda>tc. tc_index tc = idx) tcs))\<rparr>\<rparr>))"
proof (induction tcs arbitrary: d)
  case Nil
  show ?case by (simp add: specified_invocation_def split: option.splits)
next
  case (Cons tc tcs)
  show ?case
    by (simp add: Cons.IH map_of_accumulate_tool_call specified_invocation_def
        split: option.splits list.splits)
qed

text \<open>
  Claim C3. For every sequence of fragments, the reasoning text of the aggregator is the
  concatenation of the reasoning slices in arrival order, its answer text is the
  concatenation of the answer slices in arrival order, and under every index the dict of
  tool calls holds what the specification describes: nothing when no delta bore the
  index, otherwise identifier and name of the first delta that bore it and the
  argument texts of all deltas that bore it, concatenated in arrival order. No index
  occurs twice in the dict.
\<close>

theorem aggregate_concatenates:
  "agg_reasoning (aggregate response) = concat (reasoning_slices response)
   \<and> agg_content (aggregate response) = concat (answer_slices response)
   \<and> map_of (agg_tool_calls (aggregate response)) idx
       = specified_invocation (deltas_bearing idx response)
   \<and> distinct (map fst (agg_tool_calls (aggregate response)))"
  using foldl_process_chunk [of initial_aggregation response]
  by (simp add: aggregate_def initial_aggregation_def map_of_foldl_accumulate deltas_bearing_def
      distinct_foldl_accumulate)

section \<open>The turn only adds to the transcript\<close>

lemma append_message_simps [simp]:
  "messages (append_message m s) = messages s @ [m]"
  "trace (append_message m s) = trace s"
  "world (append_message m s) = world s"
  by (simp_all add: append_message_def)

lemma rounds_append [simp]: "rounds (xs @ ys) = rounds xs + rounds ys"
  by (simp add: rounds_def)

lemma rounds_simps [simp]:
  "rounds [] = 0"
  "rounds (ChatRequest ms # evs) = Suc (rounds evs)"
  "rounds (ToolCall f args # evs) = rounds evs"
  by (simp_all add: rounds_def)

lemma extends_refl: "extends s s"
  by (simp add: extends_def)

lemma extends_trans: "extends s s1 \<Longrightarrow> extends s1 s2 \<Longrightarrow> extends s s2"
  unfolding extends_def
  by (elim exE conjE) (rule_tac x = "ms @ msa" in exI, rule_tac x = "evs @ evsa" in exI, simp)

lemma extends_append_message: "extends s (append_message m s)"
  by (simp add: extends_def)

lemma extends_tool_call: "extends s (s\<lparr>trace := trace s @ [ToolCall f args]\<rparr>)"
  by (simp add: extends_def)

lemma extends_world: "extends s (s\<lparr>world := w\<rparr>)"
  by (simp add: extends_def)

lemma reply_extends: "reply rt tc payload s = Inr s' \<Longrightarrow> extends s s'"
  by (auto simp: reply_def extends_append_message split: sum.splits)

lemma continue_extends:
  assumes "extends s s0" and "extends s sfail"
    and "\<And>s1. extends s1 (snd (dispatch rt rest s1))"
  shows "extends s (snd (case reply rt tc payload s0 of
                          Inl e \<Rightarrow> (Some e, sfail)
                        | Inr s' \<Rightarrow> dispatch rt rest s'))"
proof (cases "reply rt tc payload s0")
  case (Inl e)
  then show ?thesis using assms(2) by simp
next
  case (Inr s')
  have "extends s s'"
    by (rule extends_trans [OF assms(1) reply_extends [OF Inr]])
  then show ?thesis
    using Inr extends_trans [OF _ assms(3)] by simp
qed

lemma dispatch_extends: "extends s (snd (dispatch rt tcs s))"
proof (induction tcs arbitrary: s)
  case Nil
  show ?case by (simp add: extends_refl)
next
  case (Cons tc tcs)
  note IH = Cons.IH
  show ?case
  proof (cases "parse_arguments rt (arguments (entry_function tc))")
    case (Inl e)
    then show ?thesis
      using continue_extends [OF extends_refl extends_refl IH]
      by (simp add: extends_refl)
  next
    case (Inr v)
    show ?thesis
    proof (cases "\<exists>func_args. v = JObj func_args")
      case False
      then show ?thesis
        using Inr by (cases v) (simp_all add: extends_refl)
    next
      case True
      then obtain func_args where v: "v = JObj func_args" by blast
      show ?thesis
      proof (cases "FUNCTION_MAP (name (entry_function tc))")
        case None
        then show ?thesis
          using Inr v continue_extends [OF extends_refl extends_refl IH]
          by simp
      next
        case (Some params)
        let ?s1 = "s\<lparr>trace := trace s @ [ToolCall (name (entry_function tc)) func_args]\<rparr>"
        have s1: "extends s ?s1" by (rule extends_tool_call)
        show ?thesis
        proof (cases "bind_arguments (name (entry_function tc)) params func_args")
          case (Inl e)
          then show ?thesis using Inr v Some s1 by simp
        next
          case bound: (Inr bound)
          obtain r w where body: "tool_body rt (name (entry_function tc)) bound (world s) = (r, w)"
            by (cases "tool_body rt (name (entry_function tc)) bound (world s)")
          have s2: "extends s (?s1\<lparr>world := w\<rparr>)"
            by (rule extends_trans [OF s1 extends_world])
          show ?thesis
          proof (cases r)
            case (Inl e)
            then show ?thesis using Inr v Some bound body s2 by simp
          next
            case (Inr result)
            then show ?thesis
              using \<open>parse_arguments rt (arguments (entry_function tc)) = Inr v\<close> v Some bound body
                continue_extends [OF s2 s2 IH]
              by (simp add: Let_def)
          qed
        qed
      qed
    qed
  qed
qed

lemma stream_agent_turn_shape:
  "\<exists>ms evs. messages (snd (stream_agent_turn rt s)) = messages s @ ms
     \<and> trace (snd (stream_agent_turn rt s)) = trace s @ ChatRequest (messages s) # evs
     \<and> rounds evs = 0"
proof (cases "create_chat rt (messages s) (world s)")
  case (Pair r w)
  show ?thesis
  proof (cases r)
    case (Inl e)
    then show ?thesis using Pair by (simp add: stream_agent_turn_def)
  next
    case (Inr response)
    let ?s1 = "append_message (assistant_message (aggregate response))
                 (s\<lparr>trace := trace s @ [ChatRequest (messages s)], world := w\<rparr>)"
    let ?tcs = "in_index_order (agg_tool_calls (aggregate response))"
    obtain ms evs where
      d: "messages (snd (dispatch rt ?tcs ?s1)) = messages ?s1 @ ms"
         "trace (snd (dispatch rt ?tcs ?s1)) = trace ?s1 @ evs" "rounds evs = 0"
      using dispatch_extends [of ?s1 rt ?tcs] unfolding extends_def by blast
    show ?thesis
      using Pair Inr d
      by (cases "dispatch rt ?tcs ?s1")
         (auto simp: stream_agent_turn_def Let_def split: option.splits)
  qed
qed

lemma stream_agent_turn_messages:
  "\<exists>ms. messages (snd (stream_agent_turn rt s)) = messages s @ ms"
  using stream_agent_turn_shape [of rt s] by blast

lemma stream_agent_turn_rounds:
  "rounds (trace (snd (stream_agent_turn rt s))) = Suc (rounds (trace s))"
  using stream_agent_turn_shape [of rt s] by auto

lemma after_rounds_messages:
  "\<exists>ms. messages (after_rounds rt k s) = messages s @ ms"
proof (induction k arbitrary: s)
  case 0
  show ?case by simp
next
  case (Suc k)
  obtain ms where a: "messages (snd (stream_agent_turn rt s)) = messages s @ ms"
    using stream_agent_turn_messages by blast
  obtain ms' where "messages (after_rounds rt k (snd (stream_agent_turn rt s)))
      = messages (snd (stream_agent_turn rt s)) @ ms'"
    using Suc.IH by blast
  then show ?case using a by simp
qed

lemma after_rounds_rounds:
  "rounds (trace (after_rounds rt k s)) = rounds (trace s) + k"
  by (induction k arbitrary: s) (simp_all add: stream_agent_turn_rounds)

lemma after_rounds_Suc:
  "after_rounds rt (Suc k) s = snd (stream_agent_turn rt (after_rounds rt k s))"
  by (induction k arbitrary: s) simp_all

text \<open>The loop stops at one of its rounds.\<close>

lemma agent_loop_stops:
  "\<exists>k \<le> n. snd (agent_loop rt n s) = after_rounds rt k s"
proof (induction n arbitrary: s)
  case 0
  show ?case by simp
next
  case (Suc n)
  obtain r s' where t: "stream_agent_turn rt s = (r, s')"
    by (cases "stream_agent_turn rt s")
  show ?case
  proof (cases "r = Inr None")
    case True
    obtain k where "k \<le> n" "snd (agent_loop rt n s') = after_rounds rt k s'"
      using Suc.IH by blast
    then have "Suc k \<le> Suc n \<and> snd (agent_loop rt (Suc n) s) = after_rounds rt (Suc k) s"
      using t True by simp
    then show ?thesis by blast
  next
    case False
    then have "snd (agent_loop rt (Suc n) s) = after_rounds rt (Suc 0) s"
      using t by (cases r) (auto split: option.splits)
    then show ?thesis by (metis Suc_le_mono le0)
  qed
qed

lemma agent_turn_state: "snd (agent_turn rt n s) = snd (agent_loop rt (nat n) s)"
  by (cases "agent_loop rt (nat n) s")
     (auto simp: agent_turn_def split: sum.splits option.splits)

text \<open>
  Claim C9. The transcript is changed by appending only: after
  \<^verbatim>\<open>stream_agent_turn\<close>, and after \<^verbatim>\<open>agent_turn\<close>, the transcript is the one the
  call began with, every entry unchanged and in its place (the first one among them),
  followed by what the call appended. This holds for the state a call leaves behind
  whether it returns or raises.
\<close>

theorem transcript_append_only:
  "(\<exists>ms. messages (snd (stream_agent_turn rt s)) = messages s @ ms)
   \<and> (\<exists>ms. messages (snd (agent_turn rt max_iterations s)) = messages s @ ms)"
proof
  show "\<exists>ms. messages (snd (stream_agent_turn rt s)) = messages s @ ms"
    by (rule stream_agent_turn_messages)
next
  obtain k where "snd (agent_loop rt (nat max_iterations) s) = after_rounds rt k s"
    using agent_loop_stops by blast
  then show "\<exists>ms. messages (snd (agent_turn rt max_iterations s)) = messages s @ ms"
    by (simp add: agent_turn_state after_rounds_messages)
qed

section \<open>The loop\<close>

lemma agent_loop_exhausted:
  "(\<forall>j<n. fst (stream_agent_turn rt (after_rounds rt j s)) = Inr None)
   \<Longrightarrow> agent_loop rt n s = (Inr None, after_rounds rt n s)"
proof (induction n arbitrary: s)
  case 0
  show ?case by simp
next
  case (Suc n)
  have first: "fst (stream_agent_turn rt s) = Inr None"
    using Suc.prems [rule_format, of 0] by simp
  have rest: "\<forall>j<n. fst (stream_agent_turn rt
                (after_rounds rt j (snd (stream_agent_turn rt s)))) = Inr None"
    using Suc.prems by (metis Suc_less_eq after_rounds.simps(2))
  show ?case
    using first Suc.IH [OF rest]
    by (cases "stream_agent_turn rt s") simp
qed

lemma agent_loop_answer:
  "k < n \<Longrightarrow> (\<forall>j<k. fst (stream_agent_turn rt (after_rounds rt j s)) = Inr None)
   \<Longrightarrow> fst (stream_agent_turn rt (after_rounds rt k s)) = Inr (Some answer)
   \<Longrightarrow> agent_loop rt n s = (Inr (Some answer), after_rounds rt (Suc k) s)"
proof (induction n arbitrary: s k)
  case 0
  then show ?case by simp
next
  case (Suc n)
  show ?case
  proof (cases k)
    case 0
    then show ?thesis
      using Suc.prems(3) by (cases "stream_agent_turn rt s") simp
  next
    case (Suc k')
    have first: "fst (stream_agent_turn rt s) = Inr None"
      using Suc.prems(2) [rule_format, of 0] Suc by simp
    have rest: "\<forall>j<k'. fst (stream_agent_turn rt
                  (after_rounds rt j (snd (stream_agent_turn rt s)))) = Inr None"
      using Suc.prems(2) Suc by (metis Suc_less_eq after_rounds.simps(2))
    have "agent_loop rt n (snd (stream_agent_turn rt s))
            = (Inr (Some answer), after_rounds rt (Suc k') (snd (stream_agent_turn rt s)))"
      using Suc.IH [of k' "snd (stream_agent_turn rt s)"] Suc.prems(1,3) Suc rest by simp
    then show ?thesis
      using first Suc by (cases "stream_agent_turn rt s") simp
  qed
qed

lemma stream_agent_turn_returns_nonempty:
  "fst (stream_agent_turn rt s) = Inr r \<Longrightarrow> messages (snd (stream_agent_turn rt s)) \<noteq> []"
proof (cases "create_chat rt (messages s) (world s)")
  case (Pair c w)
  assume ret: "fst (stream_agent_turn rt s) = Inr r"
  show ?thesis
  proof (cases c)
    case (Inl e)
    then show ?thesis using Pair ret by (simp add: stream_agent_turn_def)
  next
    case (Inr response)
    let ?s1 = "append_message (assistant_message (aggregate response))
                 (s\<lparr>trace := trace s @ [ChatRequest (messages s)], world := w\<rparr>)"
    let ?tcs = "in_index_order (agg_tool_calls (aggregate response))"
    obtain ms where "messages (snd (dispatch rt ?tcs ?s1)) = messages ?s1 @ ms"
      using dispatch_extends [of ?s1 rt ?tcs] unfolding extends_def by blast
    then show ?thesis
      using Pair Inr
      by (cases "dispatch rt ?tcs ?s1")
         (auto simp: stream_agent_turn_def Let_def split: option.splits)
  qed
qed

lemma after_rounds_nonempty:
  assumes "\<forall>j<n. fst (stream_agent_turn rt (after_rounds rt j s)) = Inr None"
    and "messages s \<noteq> [] \<or> 0 < n"
  shows "messages (after_rounds rt n s) \<noteq> []"
proof (cases n)
  case 0
  then show ?thesis using assms(2) by simp
next
  case (Suc m)
  then have "fst (stream_agent_turn rt (after_rounds rt m s)) = Inr None"
    using assms(1) by simp
  then have "messages (snd (stream_agent_turn rt (after_rounds rt m s))) \<noteq> []"
    by (rule stream_agent_turn_returns_nonempty)
  then show ?thesis
    unfolding Suc after_rounds_Suc .
qed

text \<open>
  Claim C7. \<^verbatim>\<open>agent_turn\<close> makes at most \<open>max_iterations\<close> rounds (one request to the
  remote service each). When the rounds before round \<open>k\<close> return \<^verbatim>\<open>None\<close> and round \<open>k\<close>
  returns an answer, \<^verbatim>\<open>agent_turn\<close> returns that answer and has made \<open>k + 1\<close> rounds.
  When every round returns \<^verbatim>\<open>None\<close>, it makes exactly \<open>max_iterations\<close> rounds and
  returns the content of the last message of the transcript, without raising; the
  transcript of a call is not empty (it starts with the system message), or at least
  one round is run. Without the keyword, \<open>max_iterations\<close> is 10.
\<close>

theorem agent_turn_stops:
  "rounds (trace (snd (agent_turn rt max_iterations s))) \<le> rounds (trace s) + nat max_iterations
   \<and> (k < nat max_iterations
        \<and> (\<forall>j<k. fst (stream_agent_turn rt (after_rounds rt j s)) = Inr None)
        \<and> fst (stream_agent_turn rt (after_rounds rt k s)) = Inr (Some answer)
      \<longrightarrow> agent_turn rt max_iterations s = (Inr (Some answer), after_rounds rt (Suc k) s)
          \<and> rounds (trace (snd (agent_turn rt max_iterations s))) = rounds (trace s) + Suc k)
   \<and> (0 \<le> max_iterations
        \<and> (\<forall>j < nat max_iterations.
              fst (stream_agent_turn rt (after_rounds rt j s)) = Inr None)
        \<and> (messages s \<noteq> [] \<or> 0 < max_iterations)
      \<longrightarrow> agent_turn rt max_iterations s
            = (Inr (get_content (last (messages (after_rounds rt (nat max_iterations) s)))),
               after_rounds rt (nat max_iterations) s)
          \<and> int (rounds (trace (snd (agent_turn rt max_iterations s))))
            = int (rounds (trace s)) + max_iterations)
   \<and> agent_turn_default rt s = agent_turn rt 10 s"
proof (intro conjI impI)
  obtain k where "k \<le> nat max_iterations"
    "snd (agent_loop rt (nat max_iterations) s) = after_rounds rt k s"
    using agent_loop_stops by blast
  then show "rounds (trace (snd (agent_turn rt max_iterations s)))
      \<le> rounds (trace s) + nat max_iterations"
    by (simp add: agent_turn_state after_rounds_rounds)
next
  assume h: "k < nat max_iterations
        \<and> (\<forall>j<k. fst (stream_agent_turn rt (after_rounds rt j s)) = Inr None)
        \<and> fst (stream_agent_turn rt (after_rounds rt k s)) = Inr (Some answer)"
  then have loop: "agent_loop rt (nat max_iterations) s
      = (Inr (Some answer), after_rounds rt (Suc k) s)"
    using agent_loop_answer [of k "nat max_iterations" rt s answer] by blast
  then show "agent_turn rt max_iterations s = (Inr (Some answer), after_rounds rt (Suc k) s)"
    by (simp add: agent_turn_def)
  then show "rounds (trace (snd (agent_turn rt max_iterations s))) = rounds (trace s) + Suc k"
    by (simp only: snd_conv after_rounds_rounds)
next
  assume h: "0 \<le> max_iterations
        \<and> (\<forall>j < nat max_iterations.
              fst (stream_agent_turn rt (after_rounds rt j s)) = Inr None)
        \<and> (messages s \<noteq> [] \<or> 0 < max_iterations)"
  then have loop: "agent_loop rt (nat max_iterations) s
      = (Inr None, after_rounds rt (nat max_iterations) s)"
    using agent_loop_exhausted by blast
  have "messages (after_rounds rt (nat max_iterations) s) \<noteq> []"
    using h after_rounds_nonempty [of "nat max_iterations" rt s] by auto
  then show r: "agent_turn rt max_iterations s
            = (Inr (get_content (last (messages (after_rounds rt (nat max_iterations) s)))),
               after_rounds rt (nat max_iterations) s)"
    using loop by (simp add: agent_turn_def)
  show "int (rounds (trace (snd (agent_turn rt max_iterations s))))
            = int (rounds (trace s)) + max_iterations"
    using h by (simp only: r snd_conv after_rounds_rounds) simp
next
  show "agent_turn_default rt s = agent_turn rt 10 s"
    by (simp add: agent_turn_default_def)
qed

section \<open>Concrete runs\<close>

lemmas stub_defs = stub_runtime_def stub_loads_def stub_dumps_def double_quoted_def
  delta_chunk_def answer_chunk_def tool_chunk_def
lemmas start_defs = system_message_def user_message_def start_state_def
lemmas agg_defs = aggregate_def initial_aggregation_def process_chunk_def process_delta_def
  accumulate_tool_call_def Let_def
lemmas turn_defs = stream_agent_turn_def assistant_message_def tool_message_def append_message_def
  reply_def
  in_index_order_def parse_arguments_def strip_def py_isspace_def FUNCTION_MAP_def bind_arguments_def
  quoted_def

lemma always_tools_round:
  "stream_agent_turn (stub_runtime always_tools) s =
     (Inr None,
      s\<lparr>messages := messages s @
           [assistant_message (aggregate (always_tools [])),
            tool_message (Some ''call_1'') (stub_dumps (JObj [(''status'', JStr ''ok'')]))],
        trace := trace s @ [ChatRequest (messages s), ToolCall ''get_datetime'' []]\<rparr>)"
  by (simp add: always_tools_def stub_defs agg_defs turn_defs)

lemma tools_then_answer_first:
  "stream_agent_turn (stub_runtime tools_then_answer) start_state =
     (Inr None,
      start_state\<lparr>messages := messages start_state @
           [assistant_message (aggregate (tools_then_answer [])),
            tool_message (Some ''call_1'') (stub_dumps (JObj [(''status'', JStr ''ok'')]))],
        trace := [ChatRequest (messages start_state), ToolCall ''get_datetime'' []]\<rparr>)"
  by (simp add: tools_then_answer_def stub_defs start_defs agg_defs turn_defs)

lemma tools_then_answer_second:
  "fst (stream_agent_turn (stub_runtime tools_then_answer)
          (snd (stream_agent_turn (stub_runtime tools_then_answer) start_state)))
     = Inr (Some ''It is noon.'')"
  unfolding tools_then_answer_first
  by (simp add: tools_then_answer_def stub_defs start_defs agg_defs turn_defs)

text \<open>
  A service that answers in the second of five rounds, and one that asks for a tool in
  each of three rounds.
\<close>

theorem agent_turn_stops_witness:
  "fst (stream_agent_turn (stub_runtime tools_then_answer) start_state) = Inr None
   \<and> fst (stream_agent_turn (stub_runtime tools_then_answer)
           (after_rounds (stub_runtime tools_then_answer) (Suc 0) start_state))
        = Inr (Some ''It is noon.'')
   \<and> fst (agent_turn (stub_runtime tools_then_answer) 5 start_state) = Inr (Some ''It is noon.'')
   \<and> rounds (trace (snd (agent_turn (stub_runtime tools_then_answer) 5 start_state))) = 2
   \<and> fst (stream_agent_turn (stub_runtime always_tools)
           (after_rounds (stub_runtime always_tools) 0 start_state)) = Inr None
   \<and> fst (stream_agent_turn (stub_runtime always_tools)
           (after_rounds (stub_runtime always_tools) 1 start_state)) = Inr None
   \<and> fst (stream_agent_turn (stub_runtime always_tools)
           (after_rounds (stub_runtime always_tools) 2 start_state)) = Inr None
   \<and> length (messages start_state) = 2
   \<and> fst (agent_turn (stub_runtime always_tools) 3 start_state)
       = Inr (Some (stub_dumps (JObj [(''status'', JStr ''ok'')])))
   \<and> rounds (trace (snd (agent_turn (stub_runtime always_tools) 3 start_state))) = 3"
proof -
  let ?R = "stub_runtime tools_then_answer"
  let ?A = "stub_runtime always_tools"
  have h1: "Suc 0 < nat 5
    \<and> (\<forall>j<Suc 0. fst (stream_agent_turn ?R (after_rounds ?R j start_state)) = Inr None)
    \<and> fst (stream_agent_turn ?R (after_rounds ?R (Suc 0) start_state))
        = Inr (Some ''It is noon.'')"
    using tools_then_answer_second by (simp add: tools_then_answer_first)
  have h2: "(0::int) \<le> 3
    \<and> (\<forall>j<nat 3. fst (stream_agent_turn ?A (after_rounds ?A j start_state)) = Inr None)
    \<and> (messages start_state \<noteq> [] \<or> (0::int) < 3)"
    by (simp add: always_tools_round)
  have three: "nat 3 = Suc (Suc (Suc 0))" by simp
  have last: "get_content (last (messages (after_rounds ?A (nat 3) start_state)))
      = Some (stub_dumps (JObj [(''status'', JStr ''ok'')]))"
    unfolding three after_rounds_Suc
    by (simp add: always_tools_round tool_message_def)
  have t0: "rounds (trace start_state) = 0" by (simp add: start_state_def)
  have c1: "agent_turn ?R 5 start_state
        = (Inr (Some ''It is noon.''), after_rounds ?R (Suc (Suc 0)) start_state)
      \<and> rounds (trace (snd (agent_turn ?R 5 start_state)))
        = rounds (trace start_state) + Suc (Suc 0)"
    using agent_turn_stops [of ?R 5 start_state "Suc 0" "''It is noon.''"] h1 by blast
  have r1: "fst (agent_turn ?R 5 start_state) = Inr (Some ''It is noon.'')"
    using conjunct1 [OF c1] by simp
  have r2: "rounds (trace (snd (agent_turn ?R 5 start_state))) = 2"
    using conjunct2 [OF c1] t0 by simp
  have c2: "agent_turn ?A 3 start_state
        = (Inr (get_content (last (messages (after_rounds ?A (nat 3) start_state)))),
           after_rounds ?A (nat 3) start_state)
      \<and> int (rounds (trace (snd (agent_turn ?A 3 start_state))))
        = int (rounds (trace start_state)) + 3"
    using agent_turn_stops [of ?A 3 start_state] h2 by blast
  have r3: "fst (agent_turn ?A 3 start_state)
        = Inr (Some (stub_dumps (JObj [(''status'', JStr ''ok'')])))"
    using conjunct1 [OF c2] last by simp
  have r4: "rounds (trace (snd (agent_turn ?A 3 start_state))) = 3"
    using conjunct2 [OF c2] t0 by simp
  have g1: "fst (stream_agent_turn ?R start_state) = Inr None"
    by (simp add: tools_then_answer_first)
  have g2: "fst (stream_agent_turn ?A (after_rounds ?A j start_state)) = Inr None" for j
    by (simp add: always_tools_round)
  have g3: "length (messages start_state) = 2"
    by (simp add: start_state_def)
  show ?thesis
    using g1 conjunct2 [OF conjunct2 [OF h1]] r1 r2 g2 [of 0] g2 [of 1] g2 [of 2] g3 r3 r4
    by blast
qed

section \<open>The assistant message and the dispatch of one invocation\<close>

lemma stream_agent_turn_assistant:
  assumes "create_chat rt (messages s) (world s) = (Inr response, w)"
  shows "\<exists>ms. messages (snd (stream_agent_turn rt s))
            = messages s @ assistant_message (aggregate response) # ms"
proof -
  let ?s1 = "append_message (assistant_message (aggregate response))
               (s\<lparr>trace := trace s @ [ChatRequest (messages s)], world := w\<rparr>)"
  let ?tcs = "in_index_order (agg_tool_calls (aggregate response))"
  obtain ms where "messages (snd (dispatch rt ?tcs ?s1)) = messages ?s1 @ ms"
    using dispatch_extends [of ?s1 rt ?tcs] unfolding extends_def by blast
  then show ?thesis
    using assms
    by (cases "dispatch rt ?tcs ?s1")
       (auto simp: stream_agent_turn_def Let_def split: option.splits)
qed

text \<open>
  Claim C6. When the remote service delivers a response, the message appended at the
  end of the transcript as it was is the assistant message built from the aggregation.
  Its \<^verbatim>\<open>content\<close> is \<^verbatim>\<open>None\<close>, and not the empty string, when there are tool calls
  and no answer text; it is the answer text, as it is, when that is not empty.
\<close>

theorem assistant_content_field:
  assumes "create_chat rt (messages s) (world s) = (Inr response, w)"
  shows "length (messages s) < length (messages (snd (stream_agent_turn rt s)))
    \<and> messages (snd (stream_agent_turn rt s)) ! length (messages s)
        = assistant_message (aggregate response)
    \<and> (agg_tool_calls (aggregate response) \<noteq> [] \<and> agg_content (aggregate response) = []
        \<longrightarrow> msg_content (assistant_message (aggregate response)) = PyNone)
    \<and> (agg_content (aggregate response) \<noteq> []
        \<longrightarrow> msg_content (assistant_message (aggregate response))
            = Text (agg_content (aggregate response)))"
proof -
  obtain ms where "messages (snd (stream_agent_turn rt s))
      = messages s @ assistant_message (aggregate response) # ms"
    using stream_agent_turn_assistant [OF assms] by blast
  then show ?thesis
    by (simp add: assistant_message_def Let_def)
qed

text \<open>
  A response with a tool call and no answer text, and a response with answer text in
  two slices.
\<close>

theorem assistant_content_field_witness:
  "create_chat (stub_runtime always_tools) (messages start_state) (world start_state)
      = (Inr (always_tools []), ())
   \<and> agg_tool_calls (aggregate (always_tools [])) \<noteq> []
   \<and> agg_content (aggregate (always_tools [])) = []
   \<and> msg_content (messages (snd (stream_agent_turn (stub_runtime always_tools) start_state)) ! 2)
       = PyNone
   \<and> create_chat (stub_runtime (\<lambda>_. [answer_chunk ''It is '', answer_chunk ''noon.'']))
        (messages start_state) (world start_state)
      = (Inr [answer_chunk ''It is '', answer_chunk ''noon.''], ())
   \<and> agg_content (aggregate [answer_chunk ''It is '', answer_chunk ''noon.'']) \<noteq> []
   \<and> msg_content (messages (snd (stream_agent_turn
          (stub_runtime (\<lambda>_. [answer_chunk ''It is '', answer_chunk ''noon.''])) start_state)) ! 2)
       = Text ''It is noon.''"
proof -
  let ?A = "stub_runtime always_tools"
  let ?resp = "[answer_chunk ''It is '', answer_chunk ''noon.'']"
  let ?B = "stub_runtime (\<lambda>_. ?resp)"
  have a: "create_chat ?A (messages start_state) (world start_state) = (Inr (always_tools []), ())"
    by (simp add: stub_runtime_def always_tools_def)
  have a1: "agg_tool_calls (aggregate (always_tools [])) \<noteq> []
      \<and> agg_content (aggregate (always_tools [])) = []"
    by (simp add: always_tools_def stub_defs agg_defs)
  have b: "create_chat ?B (messages start_state) (world start_state) = (Inr ?resp, ())"
    by (simp add: stub_runtime_def)
  have b1: "agg_content (aggregate ?resp) = ''It is noon.''"
    by (simp add: stub_defs agg_defs)
  have len: "length (messages start_state) = 2"
    by (simp add: start_state_def)
  have ra: "msg_content (messages (snd (stream_agent_turn ?A start_state)) ! 2) = PyNone"
    using assistant_content_field [OF a] a1 len by simp
  have rb: "msg_content (messages (snd (stream_agent_turn ?B start_state)) ! 2)
      = Text ''It is noon.''"
    using assistant_content_field [OF b] b1 len by simp
  show ?thesis using a a1 b b1 ra rb by simp
qed

lemma strip_empty_iff: "strip s = [] \<longleftrightarrow> (\<forall>c \<in> set s. py_isspace c)"
proof
  assume "strip s = []"
  then have "\<forall>c \<in> set (dropWhile py_isspace s). py_isspace c"
    by (simp add: strip_def dropWhile_eq_Nil_conv)
  then have "dropWhile py_isspace s = []"
    by (metis hd_dropWhile hd_in_set)
  then show "\<forall>c \<in> set s. py_isspace c"
    by (simp add: dropWhile_eq_Nil_conv)
next
  assume "\<forall>c \<in> set s. py_isspace c"
  then have "dropWhile py_isspace s = []"
    by (induction s) simp_all
  then show "strip s = []" by (simp add: strip_def del: dropWhile_eq_Nil_conv)
qed

section \<open>Runs that bear on the order of the tool calls and on failing tools\<close>

text \<open>
  Claim C2 says that the tool calls on the assistant message are ordered by ascending
  index. For deltas whose indices arrive in the order 2, 0, 1 the dict holds the keys in
  that order, and the list on the assistant message, built from
  \<^verbatim>\<open>tool_calls.values()\<close>, is in the order 2, 0, 1 as well; the loop that runs the tools
  sorts the keys and goes 0, 1, 2.
\<close>

theorem assistant_tool_calls_in_arrival_order:
  "map fst (agg_tool_calls (aggregate out_of_order_response)) = [2, 0, 1]
   \<and> map call_id (the (msg_tool_calls (assistant_message (aggregate out_of_order_response))))
       = [Some ''call_c'', Some ''call_a'', Some ''call_b'']
   \<and> map entry_id (in_index_order (agg_tool_calls (aggregate out_of_order_response)))
       = [Some ''call_a'', Some ''call_b'', Some ''call_c'']"
  by (simp add: out_of_order_response_def stub_defs agg_defs turn_defs)

text \<open>
  Claim C1 says that a failure raised by an invoked tool is caught and turned into a
  tool message. The call in line 417 stands in no \<^verbatim>\<open>try\<close>: for \<^verbatim>\<open>read_file\<close> requested
  without arguments the call raises \<^verbatim>\<open>TypeError\<close>, which leaves
  \<^verbatim>\<open>stream_agent_turn\<close> and \<^verbatim>\<open>agent_turn\<close>; the transcript ends with the assistant
  message, and no tool message answers the invocation.
\<close>

theorem tool_failure_leaves_turn:
  "stream_agent_turn (stub_runtime (\<lambda>_. read_file_without_path)) start_state
     = (Inl (Exn TypeError
               (''read_file() missing 1 required positional argument: '' @ quoted ''path'')),
        start_state\<lparr>messages := messages start_state
                        @ [assistant_message (aggregate read_file_without_path)],
                     trace := [ChatRequest (messages start_state), ToolCall ''read_file'' []]\<rparr>)
   \<and> fst (agent_turn (stub_runtime (\<lambda>_. read_file_without_path)) 10 start_state)
     = Inl (Exn TypeError
               (''read_file() missing 1 required positional argument: '' @ quoted ''path''))"
proof -
  let ?rt = "stub_runtime (\<lambda>_. read_file_without_path)"
  have turn: "stream_agent_turn ?rt start_state
     = (Inl (Exn TypeError
               (''read_file() missing 1 required positional argument: '' @ quoted ''path'')),
        start_state\<lparr>messages := messages start_state
                        @ [assistant_message (aggregate read_file_without_path)],
                     trace := [ChatRequest (messages start_state), ToolCall ''read_file'' []]\<rparr>)"
    by (simp add: read_file_without_path_def stub_defs start_defs agg_defs turn_defs)
  have loop: "agent_loop ?rt (Suc n) start_state = stream_agent_turn ?rt start_state" for n
    by (simp add: turn)
  have ten: "nat 10 = Suc 9" by simp
  have "agent_turn ?rt 10 start_state = stream_agent_turn ?rt start_state"
    unfolding agent_turn_def ten loop by (simp add: turn)
  then show ?thesis
    by (simp add: turn)
qed

text \<open>
  Claim C4 says that every turn with a tool invocation returns \<^verbatim>\<open>None\<close> and appends one
  tool message per invocation. With \<^verbatim>\<open>write_file\<close> at index 0 called without its
  arguments and \<^verbatim>\<open>get_datetime\<close> at index 1, the turn raises at index 0: it
  returns nothing, appends the assistant message and no tool message, and never reaches
  index 1.
\<close>

theorem failed_dispatch_leaves_invocations_unanswered:
  "map fst (agg_tool_calls (aggregate write_then_clock)) = [0, 1]
   \<and> stream_agent_turn (stub_runtime (\<lambda>_. write_then_clock)) start_state
     = (Inl (Exn TypeError
               (''write_file() missing 2 required positional arguments: ''
                @ quoted ''path'' @ '' and '' @ quoted ''content'')),
        start_state\<lparr>messages := messages start_state
                        @ [assistant_message (aggregate write_then_clock)],
                     trace := [ChatRequest (messages start_state), ToolCall ''write_file'' []]\<rparr>)"
  by (simp add: write_then_clock_def stub_defs start_defs agg_defs turn_defs)

section \<open>Argument text that is no object, and blank argument text\<close>

lemma reply_written:
  "json_dumps rt payload = Inr written
   \<Longrightarrow> reply rt tc payload s = Inr (append_message (tool_message (entry_id tc) written) s)"
  by (simp add: reply_def)

text \<open>
  A text that \<^verbatim>\<open>json.loads\<close> rejects with \<^verbatim>\<open>JSONDecodeError\<close> is answered by a tool
  message with the parse error, nothing is called, and the loop goes on.
\<close>

lemma decode_error_reported:
  assumes "strip (arguments (entry_function tc)) \<noteq> []"
    and "json_loads rt (arguments (entry_function tc)) = Inl (Exn JSONDecodeError why)"
    and "json_dumps rt (JObj [(''error'', JStr (''Invalid arguments JSON: '' @ why))]) = Inr written"
  shows "dispatch rt (tc # rest) s =
           dispatch rt rest
             (s\<lparr>messages := messages s @
                  [\<lparr>role = ''tool'', msg_content = Text written, msg_reasoning_content = None,
                    msg_tool_calls = None, msg_tool_call_id = Some (entry_id tc)\<rparr>]\<rparr>)"
  using assms
  by (simp add: parse_arguments_def reply_written append_message_def tool_message_def)

text \<open>
  Claim C5 says that an argument text that does not parse as a key/value payload is
  answered by a tool message with the parse error, and that the turn goes on. For the
  text \<^verbatim>\<open>[]\<close>, \<^verbatim>\<open>json.loads\<close> returns a list, \<^verbatim>\<open>func_args.items()\<close> in line 410 raises
  \<^verbatim>\<open>AttributeError\<close>, and the exception leaves the turn: the transcript ends with the
  assistant message, no tool message is appended, and \<^verbatim>\<open>get_datetime\<close> at index 1 is
  never reached. For a text that is not JSON the turn does what the claim says.
\<close>

theorem list_arguments_leave_turn:
  "stream_agent_turn (stub_runtime (\<lambda>_. list_then_clock)) start_state
     = (Inl (Exn AttributeError
               (quoted ''list'' @ '' object has no attribute '' @ quoted ''items'')),
        start_state\<lparr>messages := messages start_state @
            [\<lparr>role = ''assistant'', msg_content = PyNone, msg_reasoning_content = None,
              msg_tool_calls =
                Some [\<lparr>call_id = Some ''call_1'', call_type = ''function'',
                        call_function = \<lparr>name = ''run_command'', arguments = ''[]''\<rparr>\<rparr>,
                      \<lparr>call_id = Some ''call_2'', call_type = ''function'',
                        call_function = \<lparr>name = ''get_datetime'', arguments = ''{}''\<rparr>\<rparr>],
              msg_tool_call_id = None\<rparr>],
          trace := [ChatRequest (messages start_state)]\<rparr>)
   \<and> stream_agent_turn (stub_runtime (\<lambda>_. broken_then_clock)) start_state
     = (Inr None,
        start_state\<lparr>messages := messages start_state @
            [\<lparr>role = ''assistant'', msg_content = PyNone, msg_reasoning_content = None,
              msg_tool_calls =
                Some [\<lparr>call_id = Some ''call_1'', call_type = ''function'',
                        call_function =
                          \<lparr>name = ''run_command'', arguments = ''ls -la''\<rparr>\<rparr>,
                      \<lparr>call_id = Some ''call_2'', call_type = ''function'',
                        call_function = \<lparr>name = ''get_datetime'', arguments = ''{}''\<rparr>\<rparr>],
              msg_tool_call_id = None\<rparr>,
             \<lparr>role = ''tool'',
              msg_content = Text (stub_dumps (JObj [(''error'',
                 JStr ''Invalid arguments JSON: Expecting value: line 1 column 1 (char 0)'')])),
              msg_reasoning_content = None, msg_tool_calls = None,
              msg_tool_call_id = Some (Some ''call_1'')\<rparr>,
             \<lparr>role = ''tool'',
              msg_content = Text (stub_dumps (JObj [(''status'', JStr ''ok'')])),
              msg_reasoning_content = None, msg_tool_calls = None,
              msg_tool_call_id = Some (Some ''call_2'')\<rparr>],
          trace := [ChatRequest (messages start_state), ToolCall ''get_datetime'' []]\<rparr>)"
proof
  show "stream_agent_turn (stub_runtime (\<lambda>_. list_then_clock)) start_state
     = (Inl (Exn AttributeError
               (quoted ''list'' @ '' object has no attribute '' @ quoted ''items'')),
        start_state\<lparr>messages := messages start_state @
            [\<lparr>role = ''assistant'', msg_content = PyNone, msg_reasoning_content = None,
              msg_tool_calls =
                Some [\<lparr>call_id = Some ''call_1'', call_type = ''function'',
                        call_function = \<lparr>name = ''run_command'', arguments = ''[]''\<rparr>\<rparr>,
                      \<lparr>call_id = Some ''call_2'', call_type = ''function'',
                        call_function = \<lparr>name = ''get_datetime'', arguments = ''{}''\<rparr>\<rparr>],
              msg_tool_call_id = None\<rparr>],
          trace := [ChatRequest (messages start_state)]\<rparr>)"
    by (simp add: list_then_clock_def stub_defs start_defs agg_defs turn_defs)
next
  show "stream_agent_turn (stub_runtime (\<lambda>_. broken_then_clock)) start_state
     = (Inr None,
        start_state\<lparr>messages := messages start_state @
            [\<lparr>role = ''assistant'', msg_content = PyNone, msg_reasoning_content = None,
              msg_tool_calls =
                Some [\<lparr>call_id = Some ''call_1'', call_type = ''function'',
                        call_function =
                          \<lparr>name = ''run_command'', arguments = ''ls -la''\<rparr>\<rparr>,
                      \<lparr>call_id = Some ''call_2'', call_type = ''function'',
                        call_function = \<lparr>name = ''get_datetime'', arguments = ''{}''\<rparr>\<rparr>],
              msg_tool_call_id = None\<rparr>,
             \<lparr>role = ''tool'',
              msg_content = Text (stub_dumps (JObj [(''error'',
                 JStr ''Invalid arguments JSON: Expecting value: line 1 column 1 (char 0)'')])),
              msg_reasoning_content = None, msg_tool_calls = None,
              msg_tool_call_id = Some (Some ''call_1'')\<rparr>,
             \<lparr>role = ''tool'',
              msg_content = Text (stub_dumps (JObj [(''status'', JStr ''ok'')])),
              msg_reasoning_content = None, msg_tool_calls = None,
              msg_tool_call_id = Some (Some ''call_2'')\<rparr>],
          trace := [ChatRequest (messages start_state), ToolCall ''get_datetime'' []]\<rparr>)"
    by (simp add: broken_then_clock_def stub_defs start_defs agg_defs turn_defs)
qed

text \<open>
  Claim C10. When the argument text of an invocation is empty or blank, the arguments
  are the empty mapping, whatever \<^verbatim>\<open>json.loads\<close> would say, and no parse error is
  reported: a registered function of that name is called with no keyword arguments.
  What the loop does next is what that call does. When a parameter without default is
  left without a value the call raises; otherwise the body runs on the bound arguments,
  and when it returns, its result is written by \<^verbatim>\<open>json.dumps\<close> and appended as the
  tool message of the invocation, and the loop goes on. A function all of whose
  parameters have defaults is bound to its defaults.
\<close>

theorem blank_arguments_invoke:
  assumes "\<forall>c \<in> set (arguments (entry_function tc)). py_isspace c"
    and "FUNCTION_MAP (name (entry_function tc)) = Some params"
  shows "parse_arguments rt (arguments (entry_function tc)) = Inr (JObj [])
    \<and> dispatch rt (tc # rest) s =
        (case bind_arguments (name (entry_function tc)) params [] of
           Inl e \<Rightarrow>
             (Some e, s\<lparr>trace := trace s @ [ToolCall (name (entry_function tc)) []]\<rparr>)
         | Inr bound \<Rightarrow>
             (case tool_body rt (name (entry_function tc)) bound (world s) of
                (Inl e, w) \<Rightarrow>
                  (Some e, s\<lparr>trace := trace s @ [ToolCall (name (entry_function tc)) []],
                              world := w\<rparr>)
              | (Inr result, w) \<Rightarrow>
                  (case json_dumps rt (JObj result) of
                     Inl e \<Rightarrow>
                       (Some e, s\<lparr>trace := trace s @ [ToolCall (name (entry_function tc)) []],
                                   world := w\<rparr>)
                   | Inr written \<Rightarrow>
                       dispatch rt rest
                         (s\<lparr>trace := trace s @ [ToolCall (name (entry_function tc)) []],
                            world := w,
                            messages := messages s @
                              [\<lparr>role = ''tool'', msg_content = Text written,
                                msg_reasoning_content = None, msg_tool_calls = None,
                                msg_tool_call_id = Some (entry_id tc)\<rparr>]\<rparr>))))
    \<and> (list_all (\<lambda>(p, dflt). dflt \<noteq> None) params
        \<longrightarrow> bind_arguments (name (entry_function tc)) params []
            = Inr (map (\<lambda>(p, dflt). (p, the dflt)) params))"
proof (intro conjI impI)
  show p: "parse_arguments rt (arguments (entry_function tc)) = Inr (JObj [])"
    using assms(1) by (simp add: parse_arguments_def strip_empty_iff)
  show "dispatch rt (tc # rest) s =
        (case bind_arguments (name (entry_function tc)) params [] of
           Inl e \<Rightarrow>
             (Some e, s\<lparr>trace := trace s @ [ToolCall (name (entry_function tc)) []]\<rparr>)
         | Inr bound \<Rightarrow>
             (case tool_body rt (name (entry_function tc)) bound (world s) of
                (Inl e, w) \<Rightarrow>
                  (Some e, s\<lparr>trace := trace s @ [ToolCall (name (entry_function tc)) []],
                              world := w\<rparr>)
              | (Inr result, w) \<Rightarrow>
                  (case json_dumps rt (JObj result) of
                     Inl e \<Rightarrow>
                       (Some e, s\<lparr>trace := trace s @ [ToolCall (name (entry_function tc)) []],
                                   world := w\<rparr>)
                   | Inr written \<Rightarrow>
                       dispatch rt rest
                         (s\<lparr>trace := trace s @ [ToolCall (name (entry_function tc)) []],
                            world := w,
                            messages := messages s @
                              [\<lparr>role = ''tool'', msg_content = Text written,
                                msg_reasoning_content = None, msg_tool_calls = None,
                                msg_tool_call_id = Some (entry_id tc)\<rparr>]\<rparr>))))"
    using p assms(2)
    by (simp add: Let_def reply_def append_message_def tool_message_def
        split: sum.splits prod.splits)
next
  assume "list_all (\<lambda>(p, dflt). dflt \<noteq> None) params"
  then have "filter (\<lambda>(p, dflt). dflt = None) params = []"
    by (induction params) auto
  then show "bind_arguments (name (entry_function tc)) params []
            = Inr (map (\<lambda>(p, dflt). (p, the dflt)) params)"
    by (simp add: bind_arguments_def)
qed

text \<open>
  \<^verbatim>\<open>list_directory\<close> with a blank and a tab for arguments: the body runs with the
  default for \<^verbatim>\<open>path\<close>, and its result is the tool message.
\<close>

theorem blank_arguments_invoke_witness:
  "arguments (entry_function directory_call) = [CHR '' '', CHR 0x09]
   \<and> py_isspace (CHR '' '') \<and> py_isspace (CHR 0x09)
   \<and> FUNCTION_MAP (name (entry_function directory_call)) = Some [(''path'', Some (JStr ''.''))]
   \<and> dispatch recording_runtime [directory_call] nothing_yet
       = (None,
          \<lparr>messages =
             [\<lparr>role = ''tool'',
               msg_content = Text (stub_dumps (JObj [(''ran'', JStr ''list_directory'')])),
               msg_reasoning_content = None, msg_tool_calls = None,
               msg_tool_call_id = Some (Some ''call_7'')\<rparr>],
           world = [(''list_directory'', [(''path'', JStr ''.'')])],
           trace = [ToolCall ''list_directory'' []]\<rparr>)"
proof -
  let ?params = "[(''path'', Some (JStr ''.''))]"
  have a: "arguments (entry_function directory_call) = [CHR '' '', CHR 0x09]"
    and n: "name (entry_function directory_call) = ''list_directory''"
    and i: "entry_id directory_call = Some ''call_7''"
    by (simp_all add: directory_call_def)
  have sp: "py_isspace (CHR '' '')" "py_isspace (CHR 0x09)"
    by (simp_all add: py_isspace_def)
  have h1: "\<forall>c \<in> set (arguments (entry_function directory_call)). py_isspace c"
    using sp by (simp add: a)
  have h2: "FUNCTION_MAP (name (entry_function directory_call)) = Some ?params"
    by (simp add: n FUNCTION_MAP_def)
  have h3: "list_all (\<lambda>(p, dflt). dflt \<noteq> None) ?params" by simp
  note applied = blank_arguments_invoke [OF h1 h2, of recording_runtime "[]" nothing_yet]
  have bound: "bind_arguments (name (entry_function directory_call)) ?params []
      = Inr [(''path'', JStr ''.'')]"
    using applied [THEN conjunct2, THEN conjunct2, THEN mp, OF h3] by simp
  have run: "dispatch recording_runtime [directory_call] nothing_yet
       = (None,
          \<lparr>messages =
             [\<lparr>role = ''tool'',
               msg_content = Text (stub_dumps (JObj [(''ran'', JStr ''list_directory'')])),
               msg_reasoning_content = None, msg_tool_calls = None,
               msg_tool_call_id = Some (Some ''call_7'')\<rparr>],
           world = [(''list_directory'', [(''path'', JStr ''.'')])],
           trace = [ToolCall ''list_directory'' []]\<rparr>)"
    apply (subst applied [THEN conjunct2, THEN conjunct1])
    apply (subst bound)
    apply (simp add: n i recording_runtime_def nothing_yet_def)
    done
  show ?thesis
    using a sp h2 run by blast
qed

section \<open>The expression evaluator against the specification\<close>




















section \<open>Turns with tool invocations that return\<close>

text \<open>
  When \<^verbatim>\<open>stream_agent_turn\<close> returns from a turn with tool invocations, it returns
  \<^verbatim>\<open>None\<close>, and it has appended the assistant message followed by one tool message per
  invocation, each with the identifier of its invocation, in the order of the sorted
  indices, which is strictly ascending.
\<close>

lemma aggregate_keys_distinct:
  "distinct (map fst (agg_tool_calls (aggregate response)))"
  using foldl_process_chunk [of initial_aggregation response]
  by (simp add: aggregate_def initial_aggregation_def distinct_foldl_accumulate)

lemma distinct_keys_sort_key:
  "distinct (map fst (sort_key fst d)) = distinct (map fst d)"
  by (induction d) (simp_all add: distinct_insort_key)

lemma in_index_order_ascending:
  "distinct (map fst d) \<Longrightarrow> sorted_wrt (<) (map fst (sort_key fst d))"
  by (simp add: strict_sorted_iff distinct_keys_sort_key sorted_sort_key)

lemma continue_returns:
  assumes "(case reply rt tc payload st of
              Inl e \<Rightarrow> (Some e, sfail)
            | Inr s2 \<Rightarrow> dispatch rt rest s2) = (None, s')"
  shows "\<exists>written s2. messages s2 = messages st @ [tool_message (entry_id tc) written]
            \<and> dispatch rt rest s2 = (None, s')"
proof (cases "reply rt tc payload st")
  case (Inl e)
  then show ?thesis using assms by simp
next
  case (Inr s2)
  then obtain written where "s2 = append_message (tool_message (entry_id tc) written) st"
    by (auto simp: reply_def split: sum.splits)
  then have "messages s2 = messages st @ [tool_message (entry_id tc) written]"
    by simp
  moreover have "dispatch rt rest s2 = (None, s')"
    using assms Inr by simp
  ultimately show ?thesis by blast
qed

lemma dispatch_step_returns:
  assumes "dispatch rt (tc # rest) s = (None, s')"
  shows "\<exists>written s2. messages s2 = messages s @ [tool_message (entry_id tc) written]
            \<and> dispatch rt rest s2 = (None, s')"
proof (cases "parse_arguments rt (arguments (entry_function tc))")
  case (Inl e)
  show ?thesis
  proof (cases "exc_class e = JSONDecodeError")
    case True
    then show ?thesis
      using assms Inl by (intro continue_returns [where st = s]) simp
  next
    case False
    then show ?thesis using assms Inl by simp
  qed
next
  case (Inr v)
  show ?thesis
  proof (cases "\<exists>func_args. v = JObj func_args")
    case False
    then show ?thesis using assms Inr by (cases v) simp_all
  next
    case True
    then obtain func_args where v: "v = JObj func_args" by blast
    show ?thesis
    proof (cases "FUNCTION_MAP (name (entry_function tc))")
      case None
      then show ?thesis
        using assms Inr v by (intro continue_returns [where st = s]) simp
    next
      case (Some params)
      show ?thesis
      proof (cases "bind_arguments (name (entry_function tc)) params func_args")
        case (Inl e)
        then show ?thesis using assms Inr v Some by simp
      next
        case bound: (Inr bound)
        obtain r w where body: "tool_body rt (name (entry_function tc)) bound (world s) = (r, w)"
          by (cases "tool_body rt (name (entry_function tc)) bound (world s)")
        show ?thesis
        proof (cases r)
          case (Inl e)
          then show ?thesis using assms Inr v Some bound body by simp
        next
          case result: (Inr result)
          let ?s0 = "s\<lparr>trace := trace s @ [ToolCall (name (entry_function tc)) func_args],
                        world := w\<rparr>"
          have "\<exists>written s2. messages s2 = messages ?s0 @ [tool_message (entry_id tc) written]
                  \<and> dispatch rt rest s2 = (None, s')"
            using assms Inr v Some bound body result
            by (intro continue_returns [where st = ?s0]) (simp add: Let_def)
          then show ?thesis by simp
        qed
      qed
    qed
  qed
qed

lemma dispatch_returns:
  "dispatch rt tcs s = (None, s')
   \<Longrightarrow> \<exists>texts. length texts = length tcs
         \<and> messages s' = messages s @ map2 tool_message (map entry_id tcs) texts"
proof (induction tcs arbitrary: s)
  case Nil
  then show ?case by simp
next
  case (Cons tc tcs)
  obtain written s2 where
    s2: "messages s2 = messages s @ [tool_message (entry_id tc) written]"
    and rest: "dispatch rt tcs s2 = (None, s')"
    using dispatch_step_returns [OF Cons.prems] by blast
  obtain texts where "length texts = length tcs"
    "messages s' = messages s2 @ map2 tool_message (map entry_id tcs) texts"
    using Cons.IH [OF rest] by blast
  then have "length (written # texts) = length (tc # tcs)
      \<and> messages s' = messages s @ map2 tool_message (map entry_id (tc # tcs)) (written # texts)"
    using s2 by simp
  then show ?case by blast
qed

text \<open>
  A returning turn with invocations: the value, the messages appended, and the order.
\<close>

lemma turn_with_invocations_returning:
  assumes "create_chat rt (messages s) (world s) = (Inr response, w)"
    and "agg_tool_calls (aggregate response) \<noteq> []"
    and "fst (stream_agent_turn rt s) = Inr r"
  shows "r = None
    \<and> (\<exists>texts. length texts = length (agg_tool_calls (aggregate response))
          \<and> messages (snd (stream_agent_turn rt s))
            = messages s @ assistant_message (aggregate response)
                # map2 tool_message
                    (map entry_id (in_index_order (agg_tool_calls (aggregate response)))) texts)
    \<and> sorted_wrt (<) (map fst (sort_key fst (agg_tool_calls (aggregate response))))"
proof -
  let ?agg = "aggregate response"
  let ?s1 = "append_message (assistant_message ?agg)
               (s\<lparr>trace := trace s @ [ChatRequest (messages s)], world := w\<rparr>)"
  let ?tcs = "in_index_order (agg_tool_calls ?agg)"
  obtain x s2 where d: "dispatch rt ?tcs ?s1 = (x, s2)"
    by (cases "dispatch rt ?tcs ?s1")
  have turn: "stream_agent_turn rt s
      = (case x of Some e \<Rightarrow> (Inl e, s2) | None \<Rightarrow> (Inr None, s2))"
    using assms(1,2) d by (simp add: stream_agent_turn_def Let_def)
  then have x: "x = None" and r: "r = None"
    using assms(3) by (cases x; simp)+
  obtain texts where "length texts = length ?tcs"
    "messages s2 = messages ?s1 @ map2 tool_message (map entry_id ?tcs) texts"
    using dispatch_returns [of rt ?tcs ?s1 s2] d x by blast
  then have "length texts = length (agg_tool_calls ?agg)
      \<and> messages (snd (stream_agent_turn rt s))
        = messages s @ assistant_message ?agg # map2 tool_message (map entry_id ?tcs) texts"
    using turn x by (simp add: in_index_order_def)
  moreover have "sorted_wrt (<) (map fst (sort_key fst (agg_tool_calls ?agg)))"
    by (simp add: in_index_order_ascending aggregate_keys_distinct)
  ultimately show ?thesis using r by blast
qed

end
